theory Spec2Isabelle
  imports Main "HOL-Library.Sublist"
begin

text \<open>
  A model of the websocket session hub of the library: the subject matcher, the session
  registry, the session with its control loop (\<^verbatim>\<open>serve\<close>), its ingress listener
  (\<^verbatim>\<open>listening\<close>) and its once-guarded teardown, all from one Go file. Every method is a
  function from the state before the call to the state after it; a panic of the Go runtime
  is an error value. What the environment decides (the clock, the order of a range over a
  map, what the transport returns, which case of a \<^verbatim>\<open>select\<close> fires and after how long)
  is a parameter. The definitions come first, the properties after them.
\<close>

section \<open>Subject matcher\<close>

text \<open>
  Go strings are byte sequences, so a \<^typ>\<open>string\<close> (a list of 8-bit characters) is the
  same data. The three functions of Go's package \<^verbatim>\<open>strings\<close> that
  \<^verbatim>\<open>subject.verify\<close> calls are written out as the standard library computes them
  (by lengths and slices).
\<close>

type_synonym subject = string

definition HasPrefix :: "string \<Rightarrow> string \<Rightarrow> bool" where
  "HasPrefix s pre = (length s \<ge> length pre \<and> take (length pre) s = pre)"

definition HasSuffix :: "string \<Rightarrow> string \<Rightarrow> bool" where
  "HasSuffix s suf = (length s \<ge> length suf \<and> drop (length s - length suf) s = suf)"

definition TrimSuffix :: "string \<Rightarrow> string \<Rightarrow> string" where
  "TrimSuffix s suf = (if HasSuffix s suf then take (length s - length suf) s else s)"

text \<open>\<^verbatim>\<open>func (sub subject) verify(tar subject) bool\<close>: the receiver is the pattern.\<close>

definition verify :: "subject \<Rightarrow> subject \<Rightarrow> bool" where
  "verify sub tar =
     (if sub = ''*'' then True
      else if sub = tar then True
      else if HasSuffix sub ''*'' then HasPrefix tar (TrimSuffix sub ''*'')
      else False)"

section \<open>Session registry\<close>

text \<open>
  \<^verbatim>\<open>pool.store\<close> is a \<^verbatim>\<open>map[sessionID]struct{}\<close>: a presence marker per key. The
  reader/writer lock only serialises the three methods, so each is a function from the
  registry before the call to the result and the registry after it.
\<close>

type_synonym sessionID = string

type_synonym pool = "sessionID \<rightharpoonup> unit"

definition verifySession :: "pool \<Rightarrow> sessionID \<Rightarrow> bool \<times> pool" where
  "verifySession p i = (p i \<noteq> None, p)"

text \<open>
  \<^verbatim>\<open>createSession\<close> takes its id from \<^verbatim>\<open>uuid.New().String()\<close>, a library outside
  this repository; the generated text is the parameter \<open>u\<close>. The method stores the marker
  without looking whether the key is already there.
\<close>

definition createSession :: "pool \<Rightarrow> sessionID \<Rightarrow> sessionID \<times> pool" where
  "createSession p u = (u, p(u \<mapsto> ()))"

definition dropSession :: "pool \<Rightarrow> sessionID \<Rightarrow> pool" where
  "dropSession p i = p(i := None)"





section \<open>Wire envelope\<close>

text \<open>
  Modelled from the spec: package \<^verbatim>\<open>pb\<close>, which declares \<^verbatim>\<open>pb.Method\<close>, is not under
  src/. The numbers of the five methods are those of the wire envelope in section 6 of the
  specification. The type is a protocol-buffers enumeration, that is, a 32-bit integer
  with named values; a frame can carry a number that has no name, and the \<^verbatim>\<open>default\<close>
  branch of the control loop is there for it.
\<close>

type_synonym pb_Method = int

definition Method_PING :: pb_Method where "Method_PING = 0"
definition Method_SUBSCRIBE :: pb_Method where "Method_SUBSCRIBE = 1"
definition Method_UNSUBSCRIBE :: pb_Method where "Method_UNSUBSCRIBE = 2"
definition Method_DISCONNECT :: pb_Method where "Method_DISCONNECT = 3"
definition Method_BROADCAST :: pb_Method where "Method_BROADCAST = 4"

text \<open>
  Modelled from the spec: the declarations of \<^verbatim>\<open>WebSocketRequest\<close>,
  \<^verbatim>\<open>WebSocketResponse\<close> and \<^verbatim>\<open>WebSocketBroadcast\<close> are not under src/. The records below
  have the fields that the source reads and writes, under the names it uses (with \<open>req_\<close>
  before those of the request); the payload of an event is from section 3 of the
  specification and is carried along untouched.

  \<^verbatim>\<open>Params\<close> is a \<^verbatim>\<open>*json.RawMessage\<close>. The handlers only ever decode it into a list of
  subjects, so the raw bytes are represented by what \<^verbatim>\<open>json.Unmarshal\<close> makes of them:
  the text of the decoding error, or the decoded list. The nil pointer is \<open>None\<close>. A clock
  reading is represented by its text.
\<close>

type_synonym RawMessage = "string + subject list"

record WebSocketRequest =
  req_ID :: sessionID
  req_Method :: pb_Method
  req_Params :: "RawMessage option"

record WebSocketBroadcast =
  Subject :: subject
  Time :: string
  Payload :: string

text \<open>The \<^verbatim>\<open>interface{}\<close> values that the handlers put into \<^verbatim>\<open>Data\<close>.\<close>

datatype data = NoData | TimeText string | Topics "subject list" | Event WebSocketBroadcast

record WebSocketResponse =
  ID :: sessionID
  Code :: int
  Message :: string
  Method :: pb_Method
  Data :: data

definition StatusOK :: int where "StatusOK = 200"
definition StatusBadRequest :: int where "StatusBadRequest = 400"

definition StatusText :: "int \<Rightarrow> string" where
  "StatusText c = (if c = 200 then ''OK'' else if c = 400 then ''Bad Request'' else [])"

text \<open>\<^verbatim>\<open>fmt.Sprintf("%d", n)\<close>: the decimal digits, with a sign for a negative number.\<close>

function digits :: "nat \<Rightarrow> string" where
  "digits n = (if n < 10 then [char_of (48 + n)] else digits (n div 10) @ [char_of (48 + n mod 10)])"
  by pat_completeness auto
termination
  by (relation "measure id") auto

declare digits.simps [simp del]

definition Sprint_d :: "int \<Rightarrow> string" where
  "Sprint_d i = (if i < 0 then CHR ''-'' # digits (nat (- i)) else digits (nat i))"

section \<open>Channels\<close>

text \<open>
  A Go channel is its buffered values and whether it has been closed. Sending on a closed
  channel and closing a closed channel panic. A receive takes the oldest value; on a
  closed and drained channel it returns at once with \<^verbatim>\<open>ok == false\<close>; on an open and empty
  channel it cannot be selected.

  The capacities are set where the session is constructed, which is not under src/. The
  control loop sends on channels that only it takes from for good (the outbound queue in
  every reply, the closing channel on DISCONNECT), and such a send can only complete into
  a buffer; so the channels are taken to be buffered, and a send on an open channel is the
  append of the value: how long the sender has to wait for room is a matter of scheduling
  and is not modelled.
\<close>

datatype panic = SendOnClosedChannel | CloseOfClosedChannel | NilDereference

record 'a chan =
  queue :: "'a list"
  chan_closed :: bool

definition make_chan :: "'a chan" where
  "make_chan = \<lparr>queue = [], chan_closed = False\<rparr>"

definition enqueue :: "'a chan \<Rightarrow> 'a \<Rightarrow> 'a chan" where
  "enqueue c v = c\<lparr>queue := queue c @ [v]\<rparr>"

definition send :: "'a chan \<Rightarrow> 'a \<Rightarrow> panic + 'a chan" where
  "send c v = (if chan_closed c then Inl SendOnClosedChannel else Inr (enqueue c v))"

definition recv :: "'a chan \<Rightarrow> ('a option \<times> 'a chan) option" where
  "recv c =
     (case queue c of
        v # vs \<Rightarrow> Some (Some v, c\<lparr>queue := vs\<rparr>)
      | [] \<Rightarrow> if chan_closed c then Some (None, c) else None)"

definition close_chan :: "'a chan \<Rightarrow> panic + 'a chan" where
  "close_chan c = (if chan_closed c then Inl CloseOfClosedChannel else Inr (c\<lparr>chan_closed := True\<rparr>))"

definition and_then :: "panic + 'a \<Rightarrow> ('a \<Rightarrow> panic + 'b) \<Rightarrow> panic + 'b" where
  "and_then r f = (case r of Inl p \<Rightarrow> Inl p | Inr x \<Rightarrow> f x)"

section \<open>Session\<close>

text \<open>
  The transport is the websocket connection: the frames written to it so far and how often
  \<^verbatim>\<open>Close\<close> was called on it.
\<close>

record transport =
  written :: "WebSocketResponse list"
  close_calls :: nat

text \<open>
  The struct \<^verbatim>\<open>session\<close>, field by field. \<open>id_session\<close> is the field \<^verbatim>\<open>id\<close>; \<open>conn\<close> says
  that the pointer \<^verbatim>\<open>session.conn\<close> is not nil and \<open>wire\<close> is the connection it points
  to; \<open>heartbeat\<close> is \<^verbatim>\<open>opts.heartbeat\<close> in time units; \<open>once\<close> says that the
  \<^verbatim>\<open>sync.Once\<close> is spent. \<open>store\<close> is the package-level registry that the session's
  methods read and write. The fields \<^verbatim>\<open>header\<close> and \<^verbatim>\<open>ctx\<close>, which no method of the
  file touches, the locks and the log lines are left out.
\<close>

record session =
  id_session :: sessionID
  subscriptions :: "subject \<rightharpoonup> bool"
  request :: "WebSocketRequest chan"
  response :: "WebSocketResponse chan"
  broadcast :: "WebSocketBroadcast chan"
  conn :: bool
  wire :: transport
  heartbeat :: nat
  once :: bool
  ready :: bool
  closed :: bool
  closing :: "unit chan"
  store :: pool

subsection \<open>Responses\<close>

definition normal :: "session \<Rightarrow> pb_Method \<Rightarrow> data \<Rightarrow> panic + session" where
  "normal s method d =
     (case send (response s)
             \<lparr>ID = id_session s, Code = StatusOK, Message = StatusText StatusOK,
              Method = method, Data = d\<rparr> of
        Inl p \<Rightarrow> Inl p
      | Inr c \<Rightarrow> Inr (s\<lparr>response := c\<rparr>))"

text \<open>\<^verbatim>\<open>error\<close> leaves \<^verbatim>\<open>Method\<close> and \<^verbatim>\<open>Data\<close> at their zero values.\<close>

definition error :: "session \<Rightarrow> int \<Rightarrow> string \<Rightarrow> panic + session" where
  "error s errCode errMsg =
     (case send (response s)
             \<lparr>ID = id_session s, Code = errCode, Message = errMsg, Method = 0, Data = NoData\<rparr> of
        Inl p \<Rightarrow> Inl p
      | Inr c \<Rightarrow> Inr (s\<lparr>response := c\<rparr>))"

definition ping :: "session \<Rightarrow> string \<Rightarrow> panic + session" where
  "ping s now =
     (if \<not> closed s then normal (s\<lparr>ready := True\<rparr>) Method_PING (TimeText now) else Inr s)"

text \<open>
  \<open>write_response\<close> is the method \<^verbatim>\<open>write\<close>. It returns what \<^verbatim>\<open>conn.WriteJSON\<close> returns;
  \<open>werr\<close> is that result as the transport gives it (\<open>None\<close> for nil). A frame that the
  transport accepts is appended to what has been written.
\<close>

definition write_response :: "session \<Rightarrow> WebSocketResponse \<Rightarrow> string option \<Rightarrow> panic + string option \<times> session" where
  "write_response s v werr =
     (if ready s then
        (if \<not> conn s then Inl NilDereference
         else Inr (werr,
                   if werr = None
                   then s\<lparr>wire := (wire s)\<lparr>written := written (wire s) @ [v\<lparr>ID := id_session s\<rparr>]\<rparr>\<rparr>
                   else s))
      else Inr (None, s))"

subsection \<open>Subscriptions\<close>

text \<open>
  \<^verbatim>\<open>for subject := range m\<close> visits every key of the map once, in an order the runtime
  chooses. The choice is the parameter \<open>order\<close>, a list without repetition that holds at
  least the keys of the map; the keys are visited as they stand in it.
\<close>

definition range_keys :: "('k \<rightharpoonup> 'v) \<Rightarrow> 'k list \<Rightarrow> 'k list" where
  "range_keys m order = filter (\<lambda>k. m k \<noteq> None) order"


fun event_range :: "session \<Rightarrow> WebSocketBroadcast \<Rightarrow> subject list \<Rightarrow> panic + session" where
  "event_range s e [] = Inr s"
| "event_range s e (sub # subs) =
     (if verify sub (Subject e) then normal s Method_BROADCAST (Event e)
      else event_range s e subs)"

definition event :: "session \<Rightarrow> WebSocketBroadcast \<Rightarrow> subject list \<Rightarrow> panic + session" where
  "event s e order =
     (if ready s then event_range s e (range_keys (subscriptions s) order) else Inr s)"

definition topics :: "session \<Rightarrow> subject list \<Rightarrow> subject list" where
  "topics s order = foldl (\<lambda>ts sub. ts @ [sub]) [] (range_keys (subscriptions s) order)"

definition close :: "session \<Rightarrow> panic + session" where
  "close s = (case send (closing s) () of Inl p \<Rightarrow> Inl p | Inr c \<Rightarrow> Inr (s\<lparr>closing := c\<rparr>))"

text \<open>
  \<^verbatim>\<open>subscribe\<close> and \<^verbatim>\<open>unsubscribe\<close> dereference \<^verbatim>\<open>params\<close> before anything else; the
  range of \<^verbatim>\<open>topics\<close> runs on the map as updated.
\<close>

definition subscribe :: "session \<Rightarrow> RawMessage option \<Rightarrow> subject list \<Rightarrow> panic + session" where
  "subscribe s params order =
     (case params of
        None \<Rightarrow> Inl NilDereference
      | Some (Inl err) \<Rightarrow> and_then (error s StatusBadRequest err) close
      | Some (Inr subjects) \<Rightarrow>
          (let s' = s\<lparr>subscriptions := foldl (\<lambda>m sub. m(sub \<mapsto> True)) (subscriptions s) subjects\<rparr>
           in normal s' Method_SUBSCRIBE (Topics (topics s' order))))"

definition unsubscribe :: "session \<Rightarrow> RawMessage option \<Rightarrow> subject list \<Rightarrow> panic + session" where
  "unsubscribe s params order =
     (case params of
        None \<Rightarrow> Inl NilDereference
      | Some (Inl err) \<Rightarrow> and_then (error s StatusBadRequest err) close
      | Some (Inr subjects) \<Rightarrow>
          (let s' = s\<lparr>subscriptions := foldl (\<lambda>m sub. m(sub := None)) (subscriptions s) subjects\<rparr>
           in normal s' Method_UNSUBSCRIBE (Topics (topics s' order))))"

subsection \<open>Teardown\<close>

text \<open>
  The body that \<^verbatim>\<open>disconnect\<close> hands to \<^verbatim>\<open>once.Do\<close>, statement by statement (the last
  statement of the source assigns nil to the receiver variable of the closure and has no
  effect on the session).
\<close>

definition teardown :: "(session \<Rightarrow> panic + session) list" where
  "teardown =
     [\<lambda>s. Inr (s\<lparr>ready := False\<rparr>),
      \<lambda>s. Inr (s\<lparr>closed := True\<rparr>),
      \<lambda>s. Inr (s\<lparr>store := dropSession (store s) (id_session s)\<rparr>),
      \<lambda>s. and_then (close_chan (closing s)) (\<lambda>c. Inr (s\<lparr>closing := c\<rparr>)),
      \<lambda>s. and_then (close_chan (request s)) (\<lambda>c. Inr (s\<lparr>request := c\<rparr>)),
      \<lambda>s. and_then (close_chan (response s)) (\<lambda>c. Inr (s\<lparr>response := c\<rparr>)),
      \<lambda>s. and_then (close_chan (broadcast s)) (\<lambda>c. Inr (s\<lparr>broadcast := c\<rparr>)),
      \<lambda>s. Inr (if conn s
                then s\<lparr>wire := (wire s)\<lparr>close_calls := Suc (close_calls (wire s))\<rparr>, conn := False\<rparr>
                else s)]"

fun run_steps :: "('s \<Rightarrow> panic + 's) list \<Rightarrow> 's \<Rightarrow> panic + 's" where
  "run_steps [] s = Inr s"
| "run_steps (f # fs) s = and_then (f s) (run_steps fs)"

definition disconnect :: "session \<Rightarrow> panic + session" where
  "disconnect s =
     (if once s then Inr s
      else and_then (run_steps teardown s) (\<lambda>s'. Inr (s'\<lparr>once := True\<rparr>)))"

section \<open>Control loop\<close>

text \<open>
  One pass through the \<^verbatim>\<open>select\<close> of \<^verbatim>\<open>serve\<close>. The case that fires is chosen by the
  runtime among those that can proceed; it comes with what the environment supplies at
  that moment: the clock reading, the order of a \<^verbatim>\<open>range\<close>, the result of the transport
  write. A case whose channel is open and empty cannot fire (\<open>None\<close>). \<open>Return\<close> says that
  the loop has been left.
\<close>

datatype select_case =
    Heartbeat
  | Request string "subject list"
  | Response "string option"
  | Broadcast string "subject list"
  | Closing

datatype control = Continue | Return

definition carry_on :: "panic + session \<Rightarrow> panic + control \<times> session" where
  "carry_on r = and_then r (\<lambda>s. Inr (Continue, s))"

definition leave :: "panic + session \<Rightarrow> panic + control \<times> session" where
  "leave r = and_then r (\<lambda>s. Inr (Return, s))"

text \<open>The \<^verbatim>\<open>switch request.Method\<close> of the loop.\<close>

definition dispatch :: "session \<Rightarrow> WebSocketRequest \<Rightarrow> string \<Rightarrow> subject list \<Rightarrow> panic + session" where
  "dispatch s r now order =
     (if req_Method r = Method_PING then ping s now
      else if req_Method r = Method_SUBSCRIBE then subscribe s (req_Params r) order
      else if req_Method r = Method_UNSUBSCRIBE then unsubscribe s (req_Params r) order
      else if req_Method r = Method_DISCONNECT then close s
      else error s StatusBadRequest (''invalid method: '' @ Sprint_d (req_Method r)))"

definition serve_select :: "session \<Rightarrow> select_case \<Rightarrow> (panic + control \<times> session) option" where
  "serve_select s c =
     (case c of
        Heartbeat \<Rightarrow> Some (Inr (Continue, if ready s then s\<lparr>ready := False\<rparr> else s))
      | Request now order \<Rightarrow>
          (case recv (request s) of
             None \<Rightarrow> None
           | Some (None, ch) \<Rightarrow> Some (Inr (Continue, s\<lparr>request := ch\<rparr>))
           | Some (Some r, ch) \<Rightarrow> Some (carry_on (dispatch (s\<lparr>request := ch\<rparr>) r now order)))
      | Response werr \<Rightarrow>
          (case recv (response s) of
             None \<Rightarrow> None
           | Some (None, ch) \<Rightarrow> Some (Inr (Continue, s\<lparr>response := ch\<rparr>))
           | Some (Some v, ch) \<Rightarrow>
               Some (and_then (write_response (s\<lparr>response := ch\<rparr>) v werr)
                       (\<lambda>r. Inr (Continue, snd r))))
      | Broadcast now order \<Rightarrow>
          (case recv (broadcast s) of
             None \<Rightarrow> None
           | Some (None, ch) \<Rightarrow> Some (Inr (Continue, s\<lparr>broadcast := ch\<rparr>))
           | Some (Some e, ch) \<Rightarrow>
               Some (carry_on (event (s\<lparr>broadcast := ch\<rparr>) (e\<lparr>Time := now\<rparr>) order)))
      | Closing \<Rightarrow>
          (case recv (closing s) of
             None \<Rightarrow> None
           | Some (_, ch) \<Rightarrow> Some (leave (disconnect (s\<lparr>closing := ch\<rparr>)))))"

section \<open>Ingress listener\<close>

text \<open>
  What \<^verbatim>\<open>conn.ReadJSON\<close> returns: an error, which is a \<^verbatim>\<open>*websocket.CloseError\<close> with
  its code or some other error, each with its text; or the decoded request.
\<close>

datatype read_error = CloseError int string | OtherError string

definition isCloseError :: "read_error \<Rightarrow> int" where
  "isCloseError err = (case err of CloseError code _ \<Rightarrow> code | OtherError _ \<Rightarrow> - 1)"

definition Error_text :: "read_error \<Rightarrow> string" where
  "Error_text err = (case err of CloseError _ txt \<Rightarrow> txt | OtherError txt \<Rightarrow> txt)"

definition CloseNormalClosure :: int where "CloseNormalClosure = 1000"
definition CloseNoStatusReceived :: int where "CloseNoStatusReceived = 1005"

text \<open>
  One turn of the loop of \<^verbatim>\<open>listening\<close> is in two parts, because the goroutine waits in
  \<^verbatim>\<open>ReadJSON\<close> between them while the control loop goes on: the \<^verbatim>\<open>select\<close>, which
  leaves when the closing channel yields something and otherwise takes the default branch;
  and the default branch from the moment \<^verbatim>\<open>ReadJSON\<close> has returned.
\<close>

definition listening_select :: "session \<Rightarrow> control \<times> session" where
  "listening_select s =
     (case recv (closing s) of
        Some (_, ch) \<Rightarrow> (Return, s\<lparr>closing := ch\<rparr>)
      | None \<Rightarrow> (Continue, s))"

definition forward :: "session \<Rightarrow> WebSocketRequest \<Rightarrow> panic + session" where
  "forward s r = and_then (send (request s) r) (\<lambda>c. Inr (s\<lparr>request := c\<rparr>))"

definition listening_default :: "session \<Rightarrow> read_error + WebSocketRequest \<Rightarrow> panic + control \<times> session" where
  "listening_default s rd =
     (case rd of
        Inl err \<Rightarrow>
          leave (and_then
                   (if isCloseError err = CloseNormalClosure \<or> isCloseError err = CloseNoStatusReceived
                    then Inr s
                    else error s StatusBadRequest (Error_text err))
                   close)
      | Inr r \<Rightarrow>
          if \<not> fst (verifySession (store s) (req_ID r)) then
            leave (and_then
                     (error s StatusBadRequest (''invalid session id, '' @ req_ID r @ '' not connected''))
                     close)
          else if closed s then leave (error s StatusBadRequest ''connect closed'')
          else if req_Method r = Method_PING then carry_on (forward s r)
          else if \<not> ready s then carry_on (error s StatusBadRequest ''connect not ready'')
          else if req_Params r = None then carry_on (error s StatusBadRequest ''params cannot be empty.'')
          else carry_on (forward s r))"

section \<open>The session as a system of two goroutines\<close>

text \<open>
  Modelled from the spec: the constructor of \<^verbatim>\<open>session\<close> is not under src/. By sections 3
  and 4.1 of the specification a session is created with a fresh registered id, an empty
  subscription set, open and empty queues, a live transport, and neither ready nor closed.
\<close>

definition newSession :: "pool \<Rightarrow> sessionID \<Rightarrow> nat \<Rightarrow> session" where
  "newSession st u hb =
     \<lparr>id_session = fst (createSession st u),
      subscriptions = Map.empty,
      request = make_chan, response = make_chan, broadcast = make_chan,
      conn = True, wire = \<lparr>written = [], close_calls = 0\<rparr>,
      heartbeat = hb,
      once = False, ready = False, closed = False,
      closing = make_chan,
      store = snd (createSession st u)\<rparr>"

text \<open>
  Modelled from the spec: the broadcast station is not under src/. By section 4.5 it pushes
  an event into the broadcast queue of every session that is registered.
\<close>

definition deliver :: "session \<Rightarrow> WebSocketBroadcast \<Rightarrow> panic + session" where
  "deliver s e =
     (if fst (verifySession (store s) (id_session s))
      then and_then (send (broadcast s) e) (\<lambda>c. Inr (s\<lparr>broadcast := c\<rparr>))
      else Inr s)"

text \<open>
  The system is the session together with where its two goroutines stand: whether the
  control loop is still running, and whether the listener is at its \<^verbatim>\<open>select\<close>, waiting
  in \<^verbatim>\<open>ReadJSON\<close>, or has left. \<^verbatim>\<open>serve\<close> starts the listener and enters the loop.

  An actor is one atomic move: a pass of the control loop, in which the loop waited \<open>d\<close>
  time units in its \<^verbatim>\<open>select\<close> before the case fired; the listener's \<^verbatim>\<open>select\<close>; the
  listener's default branch on what \<^verbatim>\<open>ReadJSON\<close> returned; a delivery of the station.
  \<^verbatim>\<open>time.After(session.opts.heartbeat)\<close> is evaluated anew in every pass, so the timer
  case fires when the pass has waited exactly the interval, and any other case fires after
  at most that wait.
\<close>

datatype listener_pc = AtSelect | InRead | Left

record system =
  sess :: session
  serving :: bool
  listener :: listener_pc

datatype actor =
    Serve nat select_case
  | Select
  | Read "read_error + WebSocketRequest"
  | Station WebSocketBroadcast

definition boot :: "pool \<Rightarrow> sessionID \<Rightarrow> nat \<Rightarrow> system" where
  "boot st u hb = \<lparr>sess = newSession st u hb, serving = True, listener = AtSelect\<rparr>"

definition in_time :: "nat \<Rightarrow> nat \<Rightarrow> select_case \<Rightarrow> bool" where
  "in_time hb d c = (if c = Heartbeat then d = hb else d \<le> hb)"

definition step :: "system \<Rightarrow> actor \<Rightarrow> (panic + system) option" where
  "step w a =
     (case a of
        Serve d c \<Rightarrow>
          if serving w \<and> in_time (heartbeat (sess w)) d c then
            (case serve_select (sess w) c of
               None \<Rightarrow> None
             | Some (Inl p) \<Rightarrow> Some (Inl p)
             | Some (Inr (ctl, s')) \<Rightarrow> Some (Inr (w\<lparr>sess := s', serving := (ctl = Continue)\<rparr>)))
          else None
      | Select \<Rightarrow>
          if listener w = AtSelect then
            (case listening_select (sess w) of
               (ctl, s') \<Rightarrow>
                 Some (Inr (w\<lparr>sess := s', listener := (if ctl = Continue then InRead else Left)\<rparr>)))
          else None
      | Read rd \<Rightarrow>
          if listener w = InRead then
            (case listening_default (sess w) rd of
               Inl p \<Rightarrow> Some (Inl p)
             | Inr (ctl, s') \<Rightarrow>
                 Some (Inr (w\<lparr>sess := s', listener := (if ctl = Continue then AtSelect else Left)\<rparr>)))
          else None
      | Station e \<Rightarrow> Some (and_then (deliver (sess w) e) (\<lambda>s'. Inr (w\<lparr>sess := s'\<rparr>))))"

fun run :: "system \<Rightarrow> actor list \<Rightarrow> (panic + system) option" where
  "run w [] = Some (Inr w)"
| "run w (a # as) =
     (case step w a of
        None \<Rightarrow> None
      | Some (Inl p) \<Rightarrow> Some (Inl p)
      | Some (Inr w') \<Rightarrow> run w' as)"

inductive reachable :: "system \<Rightarrow> bool" where
  boot: "reachable (boot st u hb)"
| step: "reachable w \<Longrightarrow> step w a = Some (Inr w') \<Longrightarrow> reachable w'"

subsection \<open>Runs\<close>

text \<open>
  A run ends ready when it is possible, meets no panic and leaves the session ready.
  \<open>after w as\<close> is the system that such a run ends in (and \<open>w\<close> itself for a run that is
  not possible or panics). The time that passes in a run is what the control loop waits
  in its passes.
\<close>

definition ready_after :: "system \<Rightarrow> actor list \<Rightarrow> bool" where
  "ready_after w as = (case run w as of Some (Inr w') \<Rightarrow> ready (sess w') | _ \<Rightarrow> False)"

definition after :: "system \<Rightarrow> actor list \<Rightarrow> system" where
  "after w as = (case run w as of Some (Inr w') \<Rightarrow> w' | _ \<Rightarrow> w)"

fun elapsed :: "actor list \<Rightarrow> nat" where
  "elapsed [] = 0"
| "elapsed (Serve d c # as) = d + elapsed as"
| "elapsed (a # as) = elapsed as"

fun pings_read :: "actor list \<Rightarrow> nat" where
  "pings_read [] = 0"
| "pings_read (Read (Inr r) # as) = (if req_Method r = Method_PING then 1 else 0) + pings_read as"
| "pings_read (a # as) = pings_read as"

text \<open>
  Pieces of a conversation with one client whose session id is \<open>u1\<close>. In the handshake
  the client pings and the reply is written. The busy client subscribes every six time
  units and never pings. In the double close the client asks to disconnect; the listener
  is back in \<^verbatim>\<open>ReadJSON\<close> when the control loop handles the request and tears the session
  down, and the read then ends with the client's close frame. The late frame is the same
  with one more frame from the client, bearing the id \<open>i\<close>, in the place of the close
  frame. In the hangup the client just closes the connection.
\<close>

definition client_request :: "pb_Method \<Rightarrow> RawMessage option \<Rightarrow> WebSocketRequest" where
  "client_request m p = \<lparr>req_ID = ''u1'', req_Method = m, req_Params = p\<rparr>"

definition handshake :: "actor list" where
  "handshake =
     [Select, Read (Inr (client_request Method_PING None)),
      Serve 0 (Request ''12:00:00.000'' []), Serve 0 (Response None)]"

definition busy_client :: "actor list" where
  "busy_client =
     [Select, Read (Inr (client_request Method_SUBSCRIBE (Some (Inr [''a''])))),
      Serve 6 (Request ''12:00:06.000'' [''a'']), Serve 0 (Response None),
      Select, Read (Inr (client_request Method_SUBSCRIBE (Some (Inr [''a''])))),
      Serve 6 (Request ''12:00:12.000'' [''a'']), Serve 0 (Response None)]"

definition double_close :: "actor list" where
  "double_close =
     [Select, Read (Inr (client_request Method_DISCONNECT (Some (Inr [])))),
      Select, Serve 0 (Request ''12:00:01.000'' []), Serve 0 Closing,
      Read (Inl (CloseError 1000 ''websocket: close 1000 (normal)''))]"

definition late_frame :: "sessionID \<Rightarrow> actor list" where
  "late_frame i =
     [Select, Read (Inr (client_request Method_DISCONNECT (Some (Inr [])))),
      Select, Serve 0 (Request ''12:00:01.000'' []), Serve 0 Closing,
      Read (Inr \<lparr>req_ID = i, req_Method = Method_PING, req_Params = None\<rparr>)]"

definition hangup :: "actor list" where
  "hangup =
     [Select, Read (Inl (CloseError 1000 ''websocket: close 1000 (normal)'')), Serve 0 Closing]"

subsection \<open>Example sessions\<close>

text \<open>
  The session of client \<open>u1\<close> as it is created, with a heartbeat of ten time units; the
  same session ready, subscribed to two overlapping patterns and with one event waiting;
  and the same session not ready with one response waiting on the outbound queue.
\<close>

definition fresh :: session where
  "fresh = newSession Map.empty ''u1'' 10"

definition bad_request :: "string \<Rightarrow> WebSocketResponse" where
  "bad_request msg = \<lparr>ID = ''u1'', Code = 400, Message = msg, Method = 0, Data = NoData\<rparr>"


definition waiting :: session where
  "waiting =
     fresh
       \<lparr>response := \<lparr>queue = [\<lparr>ID = [], Code = 400, Message = ''connect not ready'', Method = 0,
                                  Data = NoData\<rparr>], chan_closed = False\<rparr>\<rparr>"

subsection \<open>Predicates on sessions\<close>

text \<open>
  A session is untorn when its teardown has not run: the guard is unspent, the session is
  not marked closed, the transport is there and the four channels are open. It is torn
  when the teardown has run through. Two sessions have the same flags when they agree on
  readiness and on all of that.
\<close>

definition untorn :: "session \<Rightarrow> bool" where
  "untorn s =
     (\<not> once s \<and> \<not> closed s \<and> conn s \<and> \<not> chan_closed (closing s) \<and>
      \<not> chan_closed (request s) \<and> \<not> chan_closed (response s) \<and> \<not> chan_closed (broadcast s))"

definition torn :: "session \<Rightarrow> bool" where
  "torn s =
     (once s \<and> closed s \<and> \<not> ready s \<and> \<not> conn s \<and> chan_closed (closing s) \<and>
      chan_closed (request s) \<and> chan_closed (response s) \<and> chan_closed (broadcast s))"

definition same_but_ready :: "session \<Rightarrow> session \<Rightarrow> bool" where
  "same_but_ready s s' =
     (closed s' = closed s \<and> once s' = once s \<and> conn s' = conn s
      \<and> chan_closed (closing s') = chan_closed (closing s)
      \<and> chan_closed (request s') = chan_closed (request s)
      \<and> chan_closed (response s') = chan_closed (response s)
      \<and> chan_closed (broadcast s') = chan_closed (broadcast s))"

definition same_flags :: "session \<Rightarrow> session \<Rightarrow> bool" where
  "same_flags s s' = (ready s' = ready s \<and> same_but_ready s s')"

section \<open>Properties of the matcher\<close>

lemma HasSuffix_star: "HasSuffix s ''*'' = suffix ''*'' s"
proof (cases s rule: rev_cases)
  case Nil
  then show ?thesis by (simp add: HasSuffix_def)
next
  case (snoc ys y)
  then show ?thesis by (auto simp: HasSuffix_def)
qed

lemma TrimSuffix_star: "suffix ''*'' s \<Longrightarrow> TrimSuffix s ''*'' = butlast s"
  by (auto simp: TrimSuffix_def HasSuffix_star suffix_def butlast_append)

lemma HasPrefix_prefix: "HasPrefix s pre = prefix pre s"
  by (auto simp: HasPrefix_def prefix_def dest: arg_cong [where f = length])
    (metis append_take_drop_id)

text \<open>
  C1. For every pattern and every topic, \<open>verify\<close> answers by the four rules in their order
  of priority: the pattern \<open>*\<close> matches; otherwise equal strings match; otherwise a pattern
  ending in \<open>*\<close> matches exactly the topics that start with the pattern without its last
  character; otherwise there is no match.
\<close>

theorem verify_rules:
  "verify pattern topic =
     (if pattern = ''*'' then True
      else if pattern = topic then True
      else if suffix ''*'' pattern then prefix (butlast pattern) topic
      else False)"
  by (simp add: verify_def HasSuffix_star TrimSuffix_star HasPrefix_prefix)

section \<open>Properties of the registry\<close>








section \<open>Sends, receives and frames\<close>

lemma send_open: "\<not> chan_closed c \<Longrightarrow> send c v = Inr (enqueue c v)"
  by (simp add: send_def)

lemma send_closed: "chan_closed c \<Longrightarrow> send c v = Inl SendOnClosedChannel"
  by (simp add: send_def)

lemma chan_closed_enqueue [simp]: "chan_closed (enqueue c v) = chan_closed c"
  by (simp add: enqueue_def)

lemma queue_enqueue [simp]: "queue (enqueue c v) = queue c @ [v]"
  by (simp add: enqueue_def)

lemma recv_cons: "queue c = v # vs \<Longrightarrow> recv c = Some (Some v, c\<lparr>queue := vs\<rparr>)"
  by (simp add: recv_def)


lemma error_open:
  "\<not> chan_closed (response s) \<Longrightarrow>
   error s c m =
     Inr (s\<lparr>response := enqueue (response s)
            \<lparr>ID = id_session s, Code = c, Message = m, Method = 0, Data = NoData\<rparr>\<rparr>)"
  by (simp add: error_def send_def)

lemma close_open: "\<not> chan_closed (closing s) \<Longrightarrow> close s = Inr (s\<lparr>closing := enqueue (closing s) ()\<rparr>)"
  by (simp add: close_def send_def)

lemma forward_open:
  "\<not> chan_closed (request s) \<Longrightarrow> forward s r = Inr (s\<lparr>request := enqueue (request s) r\<rparr>)"
  by (simp add: forward_def send_def and_then_def)

lemma same_flags_refl: "same_flags s s"
  by (simp add: same_flags_def same_but_ready_def)

lemma same_flags_trans: "same_flags s s' \<Longrightarrow> same_flags s' s'' \<Longrightarrow> same_flags s s''"
  by (simp add: same_flags_def same_but_ready_def)

lemma untorn_flags: "same_flags s s' \<Longrightarrow> untorn s \<Longrightarrow> untorn s'"
  by (simp add: same_flags_def same_but_ready_def untorn_def)

lemma normal_flags: "normal s m d = Inr s' \<Longrightarrow> same_flags s s'"
  by (auto simp: normal_def send_def same_flags_def same_but_ready_def split: if_splits)

lemma error_flags: "error s c m = Inr s' \<Longrightarrow> same_flags s s'"
  by (auto simp: error_def send_def same_flags_def same_but_ready_def split: if_splits)

lemma close_flags: "close s = Inr s' \<Longrightarrow> same_flags s s'"
  by (auto simp: close_def send_def same_flags_def same_but_ready_def split: if_splits)

lemma forward_flags: "forward s r = Inr s' \<Longrightarrow> same_flags s s'"
  by (auto simp: forward_def and_then_def send_def same_flags_def same_but_ready_def split: if_splits)

lemma deliver_flags: "deliver s e = Inr s' \<Longrightarrow> same_flags s s'"
  by (auto simp: deliver_def and_then_def send_def same_flags_def same_but_ready_def split: if_splits)

lemma event_range_flags: "event_range s e ks = Inr s' \<Longrightarrow> same_flags s s'"
  by (induction ks) (auto simp: same_flags_refl dest: normal_flags split: if_splits)

lemma event_flags: "event s e order = Inr s' \<Longrightarrow> same_flags s s'"
  by (auto simp: event_def same_flags_refl dest: event_range_flags split: if_splits)

lemma error_close_flags: "and_then (error s c m) close = Inr s' \<Longrightarrow> same_flags s s'"
  by (auto simp: and_then_def split: sum.splits dest!: error_flags close_flags intro: same_flags_trans)

lemma subscribe_flags: "subscribe s params order = Inr s' \<Longrightarrow> same_flags s s'"
  by (auto simp: subscribe_def Let_def same_flags_def same_but_ready_def split: option.splits sum.splits
      dest!: error_close_flags normal_flags)

lemma unsubscribe_flags: "unsubscribe s params order = Inr s' \<Longrightarrow> same_flags s s'"
  by (auto simp: unsubscribe_def Let_def same_flags_def same_but_ready_def split: option.splits sum.splits
      dest!: error_close_flags normal_flags)

lemma write_response_flags: "write_response s v werr = Inr (e, s') \<Longrightarrow> same_flags s s'"
  by (auto simp: write_response_def same_flags_def same_but_ready_def split: if_splits)

lemma listening_select_flags: "listening_select s = (ctl, s') \<Longrightarrow> same_flags s s'"
  by (auto simp: listening_select_def recv_def same_flags_def same_but_ready_def
      split: option.splits list.splits if_splits)

lemma listening_default_flags: "listening_default s rd = Inr (ctl, s') \<Longrightarrow> same_flags s s'"
  by (auto simp: listening_default_def leave_def carry_on_def and_then_def same_flags_refl
      split: sum.splits if_splits
      dest!: error_flags close_flags forward_flags intro: same_flags_trans)

lemma ping_flags:
  "ping s now = Inr s' \<Longrightarrow> same_but_ready s s' \<and> (ready s' \<longleftrightarrow> ready s \<or> \<not> closed s)"
  by (auto simp: ping_def same_flags_def same_but_ready_def split: if_splits dest!: normal_flags)

lemma dispatch_flags:
  "dispatch s r now order = Inr s' \<Longrightarrow>
   same_but_ready s s' \<and> (ready s' \<longleftrightarrow> ready s \<or> (req_Method r = Method_PING \<and> \<not> closed s))"
  unfolding dispatch_def
  by (auto simp: same_flags_def split: if_splits
      dest!: ping_flags subscribe_flags unsubscribe_flags close_flags error_flags)

section \<open>The once-guarded teardown\<close>

lemma run_teardown_untorn:
  "untorn s \<Longrightarrow>
   run_steps teardown s =
     Inr (s\<lparr>ready := False, closed := True,
            store := dropSession (store s) (id_session s),
            closing := (closing s)\<lparr>chan_closed := True\<rparr>,
            request := (request s)\<lparr>chan_closed := True\<rparr>,
            response := (response s)\<lparr>chan_closed := True\<rparr>,
            broadcast := (broadcast s)\<lparr>chan_closed := True\<rparr>,
            wire := (wire s)\<lparr>close_calls := Suc (close_calls (wire s))\<rparr>,
            conn := False\<rparr>)"
  by (simp add: teardown_def and_then_def close_chan_def untorn_def)

lemma disconnect_spent: "once s \<Longrightarrow> disconnect s = Inr s"
  by (simp add: disconnect_def)

lemma disconnect_result:
  "disconnect s = Inr s' \<Longrightarrow> once s' \<and> (\<not> once s \<longrightarrow> closed s' \<and> \<not> ready s')"
  unfolding disconnect_def teardown_def
  by (simp add: and_then_def close_chan_def split: if_splits) auto

lemma disconnect_twice: "disconnect s = Inr s' \<Longrightarrow> disconnect s' = Inr s'"
  by (auto dest: disconnect_result simp: disconnect_spent)

section \<open>The cases of the control loop\<close>

lemma serve_select_Heartbeat:
  "serve_select s Heartbeat = Some (Inr (Continue, s\<lparr>ready := False\<rparr>))"
  by (simp add: serve_select_def)

lemma serve_select_Request:
  "serve_select s (Request now order) = Some (Inr (ctl, s')) \<Longrightarrow>
   ctl = Continue \<and>
   ((queue (request s) = [] \<and> s' = s) \<or>
    (\<exists>r rs. queue (request s) = r # rs \<and>
       dispatch (s\<lparr>request := (request s)\<lparr>queue := rs\<rparr>\<rparr>) r now order = Inr s'))"
  by (auto simp: serve_select_def recv_def carry_on_def and_then_def
      split: list.splits if_splits sum.splits)

lemma serve_select_Response:
  "serve_select s (Response werr) = Some (Inr (ctl, s')) \<Longrightarrow>
   ctl = Continue \<and>
   ((queue (response s) = [] \<and> s' = s) \<or>
    (\<exists>v vs e. queue (response s) = v # vs \<and>
       write_response (s\<lparr>response := (response s)\<lparr>queue := vs\<rparr>\<rparr>) v werr = Inr (e, s')))"
  by (auto simp: serve_select_def recv_def carry_on_def and_then_def
      split: list.splits if_splits sum.splits)

lemma serve_select_Broadcast:
  "serve_select s (Broadcast now order) = Some (Inr (ctl, s')) \<Longrightarrow>
   ctl = Continue \<and>
   ((queue (broadcast s) = [] \<and> s' = s) \<or>
    (\<exists>e es. queue (broadcast s) = e # es \<and>
       event (s\<lparr>broadcast := (broadcast s)\<lparr>queue := es\<rparr>\<rparr>) (e\<lparr>Time := now\<rparr>) order = Inr s'))"
  by (auto simp: serve_select_def recv_def carry_on_def and_then_def
      split: list.splits if_splits sum.splits)

lemma serve_select_Closing:
  "serve_select s Closing = Some (Inr (ctl, s')) \<Longrightarrow>
   ctl = Return \<and> (\<exists>q. disconnect (s\<lparr>closing := (closing s)\<lparr>queue := q\<rparr>\<rparr>) = Inr s')"
proof -
  assume a: "serve_select s Closing = Some (Inr (ctl, s'))"
  then obtain x ch where r: "recv (closing s) = Some (x, ch)"
    and d: "leave (disconnect (s\<lparr>closing := ch\<rparr>)) = Inr (ctl, s')"
    by (auto simp: serve_select_def split: option.splits)
  from r have "ch = (closing s)\<lparr>queue := queue ch\<rparr>"
    by (auto simp: recv_def split: list.splits if_splits)
  then have "disconnect (s\<lparr>closing := ch\<rparr>) = disconnect (s\<lparr>closing := (closing s)\<lparr>queue := queue ch\<rparr>\<rparr>)"
    by simp
  with d show ?thesis
    by (auto simp: leave_def and_then_def split: sum.splits)
qed

lemma serve_select_untorn:
  assumes "untorn s" and "serve_select s c = Some (Inr (Continue, s'))"
  shows "untorn s'"
proof (cases c)
  case Heartbeat
  with assms show ?thesis by (auto simp: serve_select_Heartbeat untorn_def)
next
  case (Request now order)
  with assms show ?thesis
    by (auto simp: untorn_def same_but_ready_def dest!: serve_select_Request dispatch_flags)
next
  case (Response werr)
  with assms show ?thesis
    by (auto simp: untorn_def same_flags_def same_but_ready_def dest!: serve_select_Response write_response_flags)
next
  case (Broadcast now order)
  with assms show ?thesis
    by (auto simp: untorn_def same_flags_def same_but_ready_def dest!: serve_select_Broadcast event_flags)
next
  case Closing
  with assms show ?thesis by (auto dest!: serve_select_Closing)
qed

lemma serve_select_inv:
  assumes "closed s \<longrightarrow> \<not> ready s" and "serve_select s c = Some (Inr (ctl, s'))"
  shows "closed s' \<longrightarrow> \<not> ready s'"
proof (cases c)
  case Heartbeat
  with assms show ?thesis by (auto simp: serve_select_Heartbeat)
next
  case (Request now order)
  with assms show ?thesis
    by (auto simp: same_but_ready_def dest!: serve_select_Request dispatch_flags)
next
  case (Response werr)
  with assms show ?thesis
    by (auto simp: same_flags_def same_but_ready_def dest!: serve_select_Response write_response_flags)
next
  case (Broadcast now order)
  with assms show ?thesis
    by (auto simp: same_flags_def same_but_ready_def dest!: serve_select_Broadcast event_flags)
next
  case Closing
  with assms(2) obtain q where d: "disconnect (s\<lparr>closing := (closing s)\<lparr>queue := q\<rparr>\<rparr>) = Inr s'"
    by (auto dest!: serve_select_Closing)
  show ?thesis
  proof (cases "once s")
    case True
    with d assms(1) show ?thesis by (auto simp: disconnect_def)
  next
    case False
    with d show ?thesis by (auto dest!: disconnect_result)
  qed
qed

section \<open>Reachable states\<close>

lemma step_Serve:
  "step w (Serve d c) = Some (Inr w') \<Longrightarrow>
   serving w \<and> in_time (heartbeat (sess w)) d c \<and>
   (\<exists>ctl s'. serve_select (sess w) c = Some (Inr (ctl, s')) \<and>
      w' = w\<lparr>sess := s', serving := (ctl = Continue)\<rparr>)"
  by (auto simp: step_def split: if_splits option.splits sum.splits prod.splits)

lemma step_flags:
  "step w a = Some (Inr w') \<Longrightarrow> (\<forall>d c. a \<noteq> Serve d c) \<Longrightarrow>
   same_flags (sess w) (sess w') \<and> serving w' = serving w"
  by (cases a)
    (auto simp: step_def and_then_def split: if_splits sum.splits prod.splits
      dest: listening_select_flags listening_default_flags deliver_flags)

lemma untorn_newSession: "untorn (newSession st u hb)"
  by (simp add: untorn_def newSession_def make_chan_def)

lemma reachable_inv:
  "reachable w \<Longrightarrow> (serving w \<longrightarrow> untorn (sess w)) \<and> (closed (sess w) \<longrightarrow> \<not> ready (sess w))"
proof (induction rule: reachable.induct)
  case (boot st u hb)
  then show ?case
    using untorn_newSession [of st u hb] by (simp add: boot_def newSession_def)
next
  case (step w a w')
  show ?case
  proof (cases "\<exists>d c. a = Serve d c")
    case True
    then obtain d c where a: "a = Serve d c" by blast
    from step.hyps(2) a obtain ctl s' where
      sv: "serving w" and ss: "serve_select (sess w) c = Some (Inr (ctl, s'))"
      and w': "w' = w\<lparr>sess := s', serving := (ctl = Continue)\<rparr>"
      by (auto dest!: step_Serve)
    from step.IH sv have u: "untorn (sess w)" by simp
    have "closed s' \<longrightarrow> \<not> ready s'"
      by (rule serve_select_inv [OF _ ss]) (use step.IH in simp)
    moreover have "ctl = Continue \<longrightarrow> untorn s'"
      using u ss by (auto dest: serve_select_untorn)
    ultimately show ?thesis by (simp add: w')
  next
    case False
    with step.hyps(2) have "same_flags (sess w) (sess w') \<and> serving w' = serving w"
      by (blast dest: step_flags)
    with step.IH show ?thesis
      by (auto simp: same_flags_def same_but_ready_def untorn_def)
  qed
qed

lemma reachable_run: "reachable w \<Longrightarrow> run w as = Some (Inr w') \<Longrightarrow> reachable w'"
proof (induction as arbitrary: w)
  case Nil
  then show ?case by simp
next
  case (Cons a as)
  from Cons.prems(2) obtain w1 where s: "step w a = Some (Inr w1)" and r: "run w1 as = Some (Inr w')"
    by (auto split: option.splits sum.splits)
  from Cons.prems(1) s have "reachable w1" by (rule reachable.step)
  then show ?case using r by (rule Cons.IH)
qed

lemma disconnect_untorn: "untorn s \<Longrightarrow> \<exists>s'. disconnect s = Inr s' \<and> torn s'"
  by (simp add: disconnect_def run_teardown_untorn and_then_def untorn_def torn_def)

lemma torn_flags: "same_flags s s' \<Longrightarrow> torn s \<Longrightarrow> torn s'"
  by (simp add: same_flags_def same_but_ready_def torn_def)

lemma reachable_torn: "reachable w \<Longrightarrow> \<not> serving w \<Longrightarrow> torn (sess w)"
proof (induction rule: reachable.induct)
  case (boot st u hb)
  then show ?case by (simp add: boot_def)
next
  case (step w a w')
  show ?case
  proof (cases "\<exists>d c. a = Serve d c")
    case True
    then obtain d c where a: "a = Serve d c" by blast
    from step.hyps(2) a obtain ctl s' where
      sv: "serving w" and ss: "serve_select (sess w) c = Some (Inr (ctl, s'))"
      and w': "w' = w\<lparr>sess := s', serving := (ctl = Continue)\<rparr>"
      by (auto dest!: step_Serve)
    from step.prems w' have ret: "ctl = Return" by (cases ctl) simp_all
    from step.hyps(1) sv have u: "untorn (sess w)" by (auto dest: reachable_inv)
    from ss ret have c: "c = Closing"
      by (cases c) (auto dest!: serve_select_Request serve_select_Response serve_select_Broadcast
          simp: serve_select_Heartbeat)
    with ss obtain q where d: "disconnect ((sess w)\<lparr>closing := (closing (sess w))\<lparr>queue := q\<rparr>\<rparr>) = Inr s'"
      by (auto dest!: serve_select_Closing)
    from u have "untorn ((sess w)\<lparr>closing := (closing (sess w))\<lparr>queue := q\<rparr>\<rparr>)"
      by (simp add: untorn_def)
    then obtain s'' where "disconnect ((sess w)\<lparr>closing := (closing (sess w))\<lparr>queue := q\<rparr>\<rparr>) = Inr s''"
      and "torn s''"
      by (blast dest: disconnect_untorn)
    with d w' show ?thesis by simp
  next
    case False
    with step.hyps(2) have f: "same_flags (sess w) (sess w')" and sv: "serving w' = serving w"
      by (blast dest: step_flags)+
    from step.prems sv have "\<not> serving w" by simp
    then have "torn (sess w)" by (rule step.IH)
    with f show ?thesis by (rule torn_flags)
  qed
qed

lemma listening_default_torn: "torn s \<Longrightarrow> listening_default s rd = Inl SendOnClosedChannel"
  by (cases rd)
    (auto simp: listening_default_def torn_def error_def close_def send_def leave_def and_then_def)

lemma listener_panics_after_teardown:
  "reachable w \<Longrightarrow> \<not> serving w \<Longrightarrow> listener w = InRead \<Longrightarrow>
   step w (Read rd) = Some (Inl SendOnClosedChannel)"
  by (simp add: step_def listening_default_torn reachable_torn)

section \<open>Broadcast dispatch\<close>




lemma range_keys_Nil: "range_keys m [] = []"
  by (simp add: range_keys_def)

lemma range_keys_Cons:
  "range_keys m (k # ks) = (if k \<in> dom m then k # range_keys m ks else range_keys m ks)"
  by (auto simp: range_keys_def)





section \<open>Outbound writes\<close>

text \<open>
  C8. \<open>write_response\<close> touches the transport only when the session is ready. When it is
  not, the call returns nil and the session, transport included, is as before; taken from
  the outbound queue by the control loop, the entry is gone from the queue and nothing
  else has changed: it is neither written, nor kept, nor answered with an error. When the
  session is ready the entry is handed to the transport with the session's id. In every
  pass of the loop on the outbound queue, a change of the transport implies readiness.
\<close>

theorem write_only_when_ready:
  "(\<not> ready s \<longrightarrow> write_response s v werr = Inr (None, s))
   \<and> (\<not> ready s \<and> queue (response s) = v # vs \<longrightarrow>
        serve_select s (Response werr) =
          Some (Inr (Continue, s\<lparr>response := (response s)\<lparr>queue := vs\<rparr>\<rparr>)))
   \<and> (ready s \<and> conn s \<and> queue (response s) = v # vs \<longrightarrow>
        serve_select s (Response None) =
          Some (Inr (Continue,
            s\<lparr>response := (response s)\<lparr>queue := vs\<rparr>,
              wire := (wire s)\<lparr>written := written (wire s) @ [v\<lparr>ID := id_session s\<rparr>]\<rparr>\<rparr>)))
   \<and> (serve_select s (Response werr) = Some (Inr (ctl, s')) \<and> wire s' \<noteq> wire s \<longrightarrow> ready s)"
proof (intro conjI impI)
  assume "\<not> ready s"
  then show "write_response s v werr = Inr (None, s)"
    by (simp add: write_response_def)
next
  assume "\<not> ready s \<and> queue (response s) = v # vs"
  then show "serve_select s (Response werr) =
          Some (Inr (Continue, s\<lparr>response := (response s)\<lparr>queue := vs\<rparr>\<rparr>))"
    by (simp add: serve_select_def recv_cons write_response_def and_then_def)
next
  assume "ready s \<and> conn s \<and> queue (response s) = v # vs"
  then show "serve_select s (Response None) =
          Some (Inr (Continue,
            s\<lparr>response := (response s)\<lparr>queue := vs\<rparr>,
              wire := (wire s)\<lparr>written := written (wire s) @ [v\<lparr>ID := id_session s\<rparr>]\<rparr>\<rparr>))"
    by (simp add: serve_select_def recv_cons write_response_def and_then_def)
next
  assume a: "serve_select s (Response werr) = Some (Inr (ctl, s')) \<and> wire s' \<noteq> wire s"
  show "ready s"
  proof (rule ccontr)
    assume n: "\<not> ready s"
    from a have "(queue (response s) = [] \<and> s' = s) \<or>
      (\<exists>v vs e. queue (response s) = v # vs \<and>
         write_response (s\<lparr>response := (response s)\<lparr>queue := vs\<rparr>\<rparr>) v werr = Inr (e, s'))"
      by (auto dest!: serve_select_Response)
    with n have "wire s' = wire s"
      by (auto simp: write_response_def)
    with a show False by simp
  qed
qed

theorem write_only_when_ready_witness:
  "\<not> ready waiting
   \<and> queue (response waiting) =
        [\<lparr>ID = [], Code = 400, Message = ''connect not ready'', Method = 0, Data = NoData\<rparr>]
   \<and> write_response waiting \<lparr>ID = [], Code = 400, Message = ''connect not ready'', Method = 0, Data = NoData\<rparr> None
        = Inr (None, waiting)
   \<and> serve_select waiting (Response None) = Some (Inr (Continue, waiting\<lparr>response := make_chan\<rparr>))
   \<and> ready (waiting\<lparr>ready := True\<rparr>) \<and> conn (waiting\<lparr>ready := True\<rparr>)
   \<and> serve_select (waiting\<lparr>ready := True\<rparr>) (Response None) =
        Some (Inr (Continue,
          waiting\<lparr>ready := True, response := make_chan,
            wire := \<lparr>written = [\<lparr>ID = ''u1'', Code = 400, Message = ''connect not ready'', Method = 0,
                                   Data = NoData\<rparr>], close_calls = 0\<rparr>\<rparr>))"
  using write_only_when_ready [of waiting
      "\<lparr>ID = [], Code = 400, Message = ''connect not ready'', Method = 0, Data = NoData\<rparr>" None "[]"]
    write_only_when_ready [of "waiting\<lparr>ready := True\<rparr>"
      "\<lparr>ID = [], Code = 400, Message = ''connect not ready'', Method = 0, Data = NoData\<rparr>" None "[]"]
  by (simp add: waiting_def fresh_def newSession_def make_chan_def createSession_def)

section \<open>Subscribing and unsubscribing\<close>









section \<open>Evaluating runs\<close>

lemma reachable_after: "reachable w \<Longrightarrow> reachable (after w as)"
  by (auto simp: after_def split: option.splits sum.splits dest: reachable_run)

lemmas run_defs = step_def serve_select_def listening_select_def listening_default_def
  dispatch_def ping_def subscribe_def unsubscribe_def event_def topics_def
  range_keys_Nil range_keys_Cons
  write_response_def normal_def error_def close_def forward_def deliver_def disconnect_def
  teardown_def send_def enqueue_def recv_def close_chan_def and_then_def carry_on_def leave_def
  in_time_def boot_def newSession_def make_chan_def createSession_def verifySession_def
  dropSession_def client_request_def Method_PING_def Method_SUBSCRIBE_def
  Method_UNSUBSCRIBE_def Method_DISCONNECT_def Method_BROADCAST_def StatusOK_def
  StatusBadRequest_def StatusText_def isCloseError_def Error_text_def CloseNormalClosure_def
  CloseNoStatusReceived_def

section \<open>Admission checks of the listener\<close>

text \<open>
  For a decoded request, while the three queues that the listener sends on are open
  (as they are in every reachable state in which the control loop runs), the default
  branch of the listener decides in this order: an id that the registry does
  not verify gets an error response, a closing signal, and the listener leaves; otherwise
  a session marked closed gets an error response and the listener leaves without a
  closing signal; otherwise a PING is forwarded to the inbound queue, whatever the
  readiness and the params; otherwise a session that is not ready gets an error response
  and the listener goes on; otherwise absent params get an error response and the
  listener goes on; otherwise the request is forwarded and the listener goes on. (A session
  can be marked closed with its outbound queue still open: the teardown sets the mark in its
  second statement and closes that queue in its sixth, and the listener runs beside it.)
\<close>

lemma admission_cascade:
  "(\<not> chan_closed (response s) \<and> \<not> chan_closed (closing s) \<and> \<not> chan_closed (request s) \<longrightarrow>
   listening_default s (Inr r) =
     (if \<not> fst (verifySession (store s) (req_ID r)) then
        Inr (Return,
          s\<lparr>response := enqueue (response s)
               \<lparr>ID = id_session s, Code = 400,
                Message = ''invalid session id, '' @ req_ID r @ '' not connected'',
                Method = 0, Data = NoData\<rparr>,
            closing := enqueue (closing s) ()\<rparr>)
      else if closed s then
        Inr (Return,
          s\<lparr>response := enqueue (response s)
               \<lparr>ID = id_session s, Code = 400, Message = ''connect closed'',
                Method = 0, Data = NoData\<rparr>\<rparr>)
      else if req_Method r = Method_PING then
        Inr (Continue, s\<lparr>request := enqueue (request s) r\<rparr>)
      else if \<not> ready s then
        Inr (Continue,
          s\<lparr>response := enqueue (response s)
               \<lparr>ID = id_session s, Code = 400, Message = ''connect not ready'',
                Method = 0, Data = NoData\<rparr>\<rparr>)
      else if req_Params r = None then
        Inr (Continue,
          s\<lparr>response := enqueue (response s)
               \<lparr>ID = id_session s, Code = 400, Message = ''params cannot be empty.'',
                Method = 0, Data = NoData\<rparr>\<rparr>)
      else Inr (Continue, s\<lparr>request := enqueue (request s) r\<rparr>)))
   \<and> (reachable w \<and> serving w \<longrightarrow>
        \<not> chan_closed (response (sess w)) \<and> \<not> chan_closed (closing (sess w))
        \<and> \<not> chan_closed (request (sess w)))"
proof (intro conjI impI)
  assume "reachable w \<and> serving w"
  then have "untorn (sess w)" by (auto dest: reachable_inv)
  then show "\<not> chan_closed (response (sess w))" and "\<not> chan_closed (closing (sess w))"
    and "\<not> chan_closed (request (sess w))"
    by (simp_all add: untorn_def)
qed (simp add: listening_default_def error_open close_open forward_open leave_def carry_on_def
    and_then_def StatusBadRequest_def)

lemma fresh_open:
  "\<not> chan_closed (response fresh) \<and> \<not> chan_closed (closing fresh) \<and> \<not> chan_closed (request fresh)
   \<and> \<not> ready fresh \<and> \<not> closed fresh \<and> store fresh = [''u1'' \<mapsto> ()] \<and> id_session fresh = ''u1''
   \<and> queue (response fresh) = [] \<and> queue (request fresh) = [] \<and> queue (closing fresh) = []"
  by (simp add: fresh_def newSession_def make_chan_def createSession_def)

lemma admission_cascade_examples:
  "\<not> chan_closed (response fresh) \<and> \<not> chan_closed (closing fresh) \<and> \<not> chan_closed (request fresh)
   \<and> listening_default fresh (Inr \<lparr>req_ID = ''zz'', req_Method = Method_PING, req_Params = None\<rparr>) =
       Inr (Return,
         fresh\<lparr>response := enqueue (response fresh) (bad_request ''invalid session id, zz not connected''),
               closing := enqueue (closing fresh) ()\<rparr>)
   \<and> listening_default (fresh\<lparr>closed := True\<rparr>) (Inr (client_request Method_SUBSCRIBE None)) =
       Inr (Return,
         fresh\<lparr>closed := True, response := enqueue (response fresh) (bad_request ''connect closed'')\<rparr>)
   \<and> listening_default fresh (Inr (client_request Method_PING None)) =
       Inr (Continue, fresh\<lparr>request := enqueue (request fresh) (client_request Method_PING None)\<rparr>)
   \<and> listening_default fresh (Inr (client_request Method_SUBSCRIBE (Some (Inr [''a''])))) =
       Inr (Continue, fresh\<lparr>response := enqueue (response fresh) (bad_request ''connect not ready'')\<rparr>)
   \<and> listening_default (fresh\<lparr>ready := True\<rparr>) (Inr (client_request Method_SUBSCRIBE None)) =
       Inr (Continue,
         fresh\<lparr>ready := True, response := enqueue (response fresh) (bad_request ''params cannot be empty.'')\<rparr>)
   \<and> listening_default (fresh\<lparr>ready := True\<rparr>) (Inr (client_request Method_SUBSCRIBE (Some (Inr [''a''])))) =
       Inr (Continue,
         fresh\<lparr>ready := True,
               request := enqueue (request fresh) (client_request Method_SUBSCRIBE (Some (Inr [''a''])))\<rparr>)
   \<and> reachable (boot Map.empty ''u1'' 10) \<and> serving (boot Map.empty ''u1'' 10)
   \<and> \<not> chan_closed (response (sess (boot Map.empty ''u1'' 10)))"
  using admission_cascade [of fresh "\<lparr>req_ID = ''zz'', req_Method = Method_PING, req_Params = None\<rparr>"]
    admission_cascade [of "fresh\<lparr>closed := True\<rparr>" "client_request Method_SUBSCRIBE None"]
    admission_cascade [of fresh "client_request Method_PING None"]
    admission_cascade [of fresh "client_request Method_SUBSCRIBE (Some (Inr [''a'']))"]
    admission_cascade [of "fresh\<lparr>ready := True\<rparr>" "client_request Method_SUBSCRIBE None"]
    admission_cascade [of "fresh\<lparr>ready := True\<rparr>" "client_request Method_SUBSCRIBE (Some (Inr [''a'']))"]
    admission_cascade [of fresh "client_request Method_PING None" "boot Map.empty ''u1'' 10"]
    reachable.boot [of Map.empty "''u1''" 10]
    fresh_open
  by (simp add: verifySession_def client_request_def bad_request_def Method_PING_def
      Method_SUBSCRIBE_def boot_def fresh_def [symmetric])

lemma teardown_window:
  "run_steps (take 2 teardown) (fresh\<lparr>ready := True\<rparr>) = Inr (fresh\<lparr>ready := False, closed := True\<rparr>)"
  by (simp add: teardown_def and_then_def)

lemma admission_after_teardown:
  "chan_closed (response s) \<Longrightarrow> \<not> fst (verifySession (store s) (req_ID r)) \<or> closed s \<Longrightarrow>
   listening_default s (Inr r) = Inl SendOnClosedChannel"
  by (auto simp: listening_default_def error_def send_def leave_def and_then_def)

text \<open>
  C6. The admission checks of the listener on every decoded request. As long as the
  session is untorn the default branch decides as \<open>admission_cascade\<close> says, which is the
  order and the outcomes of (a) to (e). But the outcomes of (a) and (b) are sends on the
  outbound queue, and the teardown closes that queue while the listener may still wait in
  \<^verbatim>\<open>ReadJSON\<close>. In the first run below the client asks to disconnect and sends one more
  frame; the control loop tears the session down before the listener has that frame; its
  id is no longer verified, and the error response of (a) panics. The second run is the
  same beside a live session \<open>u2\<close> whose id the late frame bears: the id is verified, the
  session is marked closed, and the error response of (b) panics.
\<close>

theorem late_frame_panics:
  "listener (after (boot Map.empty ''u1'' 10) (handshake @ butlast (late_frame ''u1''))) = InRead
   \<and> closed (sess (after (boot Map.empty ''u1'' 10) (handshake @ butlast (late_frame ''u1''))))
   \<and> fst (verifySession
             (store (sess (after (boot Map.empty ''u1'' 10) (handshake @ butlast (late_frame ''u1'')))))
             ''u1'') = False
   \<and> run (boot Map.empty ''u1'' 10) (handshake @ late_frame ''u1'') = Some (Inl SendOnClosedChannel)
   \<and> fst (verifySession
             (store (sess (after (boot [''u2'' \<mapsto> ()] ''u1'' 10) (handshake @ butlast (late_frame ''u2'')))))
             ''u2'') = True
   \<and> closed (sess (after (boot [''u2'' \<mapsto> ()] ''u1'' 10) (handshake @ butlast (late_frame ''u2''))))
   \<and> run (boot [''u2'' \<mapsto> ()] ''u1'' 10) (handshake @ late_frame ''u2'') = Some (Inl SendOnClosedChannel)"
  by (simp add: after_def handshake_def late_frame_def run_defs)

section \<open>Readiness\<close>





section \<open>Closed sessions are never ready\<close>

lemma run_steps_preserves:
  "\<forall>f \<in> set fs. \<forall>s s'. P s \<longrightarrow> f s = Inr s' \<longrightarrow> P s' \<Longrightarrow> P s \<Longrightarrow>
   run_steps fs s = Inr s' \<Longrightarrow> P s'"
proof (induction fs arbitrary: s)
  case Nil
  from Nil.prems(3) have "s' = s" by simp
  with Nil.prems(2) show ?case by (simp only:)
next
  case (Cons f fs)
  from Cons.prems(3) obtain s1 where f: "f s = Inr s1" and r: "run_steps fs s1 = Inr s'"
    by (cases "f s") (simp_all add: and_then_def)
  have "f \<in> set (f # fs)" by simp
  with Cons.prems(1) have "\<forall>s s'. P s \<longrightarrow> f s = Inr s' \<longrightarrow> P s'" by (rule bspec)
  then have "P s \<longrightarrow> f s = Inr s1 \<longrightarrow> P s1" by (elim allE)
  then have "f s = Inr s1 \<longrightarrow> P s1" using Cons.prems(2) by (rule mp)
  then have p1: "P s1" using f by (rule mp)
  have all: "\<forall>g \<in> set fs. \<forall>s s'. P s \<longrightarrow> g s = Inr s' \<longrightarrow> P s'"
  proof (rule ballI)
    fix g
    assume "g \<in> set fs"
    then have "g \<in> set (f # fs)" by simp
    with Cons.prems(1) show "\<forall>s s'. P s \<longrightarrow> g s = Inr s' \<longrightarrow> P s'" by (rule bspec)
  qed
  show ?case by (rule Cons.IH [OF all p1 r])
qed

lemma teardown_tail_keeps_unready:
  "\<forall>f \<in> set (tl teardown). \<forall>s s'. \<not> ready s \<longrightarrow> f s = Inr s' \<longrightarrow> \<not> ready s'"
  unfolding teardown_def
  by (simp add: and_then_def close_chan_def split: if_splits)

lemma teardown_prefix_inv:
  assumes "closed s \<longrightarrow> \<not> ready s" and "run_steps (take n teardown) s = Inr s'"
  shows "closed s' \<longrightarrow> \<not> ready s'"
proof (cases n)
  case 0
  with assms show ?thesis by simp
next
  case (Suc k)
  have t: "teardown = hd teardown # tl teardown"
    by (simp add: teardown_def)
  have h: "hd teardown s = Inr (s\<lparr>ready := False\<rparr>)"
    by (simp add: teardown_def)
  from assms(2) Suc have "run_steps (hd teardown # take k (tl teardown)) s = Inr s'"
    by (subst (asm) t) simp
  with h have r: "run_steps (take k (tl teardown)) (s\<lparr>ready := False\<rparr>) = Inr s'"
    by (simp add: and_then_def)
  have "\<forall>f \<in> set (take k (tl teardown)). \<forall>s1 s2. \<not> ready s1 \<longrightarrow> f s1 = Inr s2 \<longrightarrow> \<not> ready s2"
  proof (rule ballI)
    fix f
    assume "f \<in> set (take k (tl teardown))"
    then have "f \<in> set (tl teardown)" by (rule in_set_takeD)
    with teardown_tail_keeps_unready
    show "\<forall>s1 s2. \<not> ready s1 \<longrightarrow> f s1 = Inr s2 \<longrightarrow> \<not> ready s2" by (rule bspec)
  qed
  moreover have "\<not> ready (s\<lparr>ready := False\<rparr>)" by simp
  ultimately have "\<not> ready s'"
    using r by (rule run_steps_preserves [where P = "\<lambda>s. \<not> ready s"])
  then show ?thesis by simp
qed

lemma serve_select_closed:
  assumes "closed s" and "serve_select s c = Some (Inr (ctl, s'))"
  shows "closed s' \<and> (ready s' \<longrightarrow> ready s)"
proof (cases c)
  case Heartbeat
  with assms show ?thesis by (auto simp: serve_select_Heartbeat)
next
  case (Request now order)
  with assms show ?thesis
    by (auto simp: same_but_ready_def dest!: serve_select_Request dispatch_flags)
next
  case (Response werr)
  with assms show ?thesis
    by (auto simp: same_flags_def same_but_ready_def dest!: serve_select_Response write_response_flags)
next
  case (Broadcast now order)
  with assms show ?thesis
    by (auto simp: same_flags_def same_but_ready_def dest!: serve_select_Broadcast event_flags)
next
  case Closing
  with assms(2) obtain q where d: "disconnect (s\<lparr>closing := (closing s)\<lparr>queue := q\<rparr>\<rparr>) = Inr s'"
    by (auto dest!: serve_select_Closing)
  show ?thesis
  proof (cases "once s")
    case True
    with d assms(1) show ?thesis by (auto simp: disconnect_def)
  next
    case False
    with d show ?thesis by (auto dest!: disconnect_result)
  qed
qed

text \<open>
  C10. In every reachable state a session that is marked closed is not ready. The parts:
  \<open>ping\<close> on a closed session changes nothing; the teardown clears \<open>ready\<close> in its first
  statement, before \<open>closed\<close> is set, so that the implication holds after each of its
  statements; each pass of the control loop keeps the implication, and on a closed
  session it keeps the session closed and never makes it ready; the listener and the
  station change neither flag.
\<close>

theorem closed_implies_not_ready:
  "(reachable w \<and> closed (sess w) \<longrightarrow> \<not> ready (sess w))
   \<and> (closed s \<longrightarrow> ping s now = Inr s)
   \<and> run_steps (take 1 teardown) s = Inr (s\<lparr>ready := False\<rparr>)
   \<and> ((closed s \<longrightarrow> \<not> ready s) \<and> run_steps (take n teardown) s = Inr s' \<longrightarrow>
        (closed s' \<longrightarrow> \<not> ready s'))
   \<and> ((closed s \<longrightarrow> \<not> ready s) \<and> serve_select s c = Some (Inr (ctl, s')) \<longrightarrow>
        (closed s' \<longrightarrow> \<not> ready s'))
   \<and> (closed s \<and> serve_select s c = Some (Inr (ctl, s')) \<longrightarrow>
        closed s' \<and> (ready s' \<longrightarrow> ready s))
   \<and> (listening_select s = (ctl, s') \<longrightarrow> ready s' = ready s \<and> closed s' = closed s)
   \<and> (listening_default s rd = Inr (ctl, s') \<longrightarrow> ready s' = ready s \<and> closed s' = closed s)
   \<and> (deliver s e = Inr s' \<longrightarrow> ready s' = ready s \<and> closed s' = closed s)"
proof (intro conjI impI)
  assume "reachable w \<and> closed (sess w)"
  then show "\<not> ready (sess w)" by (auto dest: reachable_inv)
next
  assume "closed s"
  then show "ping s now = Inr s" by (simp add: ping_def)
next
  show "run_steps (take 1 teardown) s = Inr (s\<lparr>ready := False\<rparr>)"
    by (simp add: teardown_def and_then_def)
next
  assume "(closed s \<longrightarrow> \<not> ready s) \<and> run_steps (take n teardown) s = Inr s'" and "closed s'"
  then show "\<not> ready s'" using teardown_prefix_inv [of s n s'] by simp
next
  assume "(closed s \<longrightarrow> \<not> ready s) \<and> serve_select s c = Some (Inr (ctl, s'))" and "closed s'"
  then show "\<not> ready s'" using serve_select_inv [of s c ctl s'] by simp
next
  assume "closed s \<and> serve_select s c = Some (Inr (ctl, s'))"
  then show "closed s'" using serve_select_closed [of s c ctl s'] by simp
next
  assume "closed s \<and> serve_select s c = Some (Inr (ctl, s'))" and "ready s'"
  then show "ready s" using serve_select_closed [of s c ctl s'] by simp
next
  assume "listening_select s = (ctl, s')"
  then have "same_flags s s'" by (rule listening_select_flags)
  then show "ready s' = ready s" and "closed s' = closed s"
    by (simp_all add: same_flags_def same_but_ready_def)
next
  assume "listening_default s rd = Inr (ctl, s')"
  then have "same_flags s s'" by (rule listening_default_flags)
  then show "ready s' = ready s" and "closed s' = closed s"
    by (simp_all add: same_flags_def same_but_ready_def)
next
  assume "deliver s e = Inr s'"
  then have "same_flags s s'" by (rule deliver_flags)
  then show "ready s' = ready s" and "closed s' = closed s"
    by (simp_all add: same_flags_def same_but_ready_def)
qed

theorem closed_implies_not_ready_witness:
  "reachable (after (boot Map.empty ''u1'' 10) (handshake @ hangup))
   \<and> closed (sess (after (boot Map.empty ''u1'' 10) (handshake @ hangup)))
   \<and> \<not> ready (sess (after (boot Map.empty ''u1'' 10) (handshake @ hangup)))
   \<and> ready_after (boot Map.empty ''u1'' 10) handshake
   \<and> ping (sess (after (boot Map.empty ''u1'' 10) (handshake @ hangup))) ''12:00:09.000''
        = Inr (sess (after (boot Map.empty ''u1'' 10) (handshake @ hangup)))
   \<and> run_steps (take 2 teardown) (fresh\<lparr>ready := True\<rparr>) = Inr (fresh\<lparr>ready := False, closed := True\<rparr>)
   \<and> \<not> ready (fresh\<lparr>ready := False, closed := True\<rparr>)
   \<and> serve_select
         (fresh\<lparr>closed := True, request := \<lparr>queue = [client_request Method_PING None], chan_closed = False\<rparr>\<rparr>)
         (Request ''12:00:09.000'' []) =
       Some (Inr (Continue, fresh\<lparr>closed := True\<rparr>))
   \<and> \<not> ready (fresh\<lparr>closed := True\<rparr>)"
  using closed_implies_not_ready [where w = "after (boot Map.empty ''u1'' 10) (handshake @ hangup)"
      and s = "sess (after (boot Map.empty ''u1'' 10) (handshake @ hangup))"
      and now = "''12:00:09.000''"]
    closed_implies_not_ready [where s = "fresh\<lparr>ready := True\<rparr>" and n = 2
      and s' = "fresh\<lparr>ready := False, closed := True\<rparr>"]
    closed_implies_not_ready [where
      s = "fresh\<lparr>closed := True, request := \<lparr>queue = [client_request Method_PING None], chan_closed = False\<rparr>\<rparr>"
      and c = "Request ''12:00:09.000'' []" and ctl = Continue and s' = "fresh\<lparr>closed := True\<rparr>"]
    reachable_after [OF reachable.boot, of Map.empty "''u1''" 10 "handshake @ hangup"]
  by (simp add: after_def ready_after_def handshake_def hangup_def fresh_def run_defs)

section \<open>Heartbeat\<close>

lemma step_ready_falls:
  assumes "step w a = Some (Inr w')" and "ready (sess w)" and "\<not> ready (sess w')"
  shows "a = Serve (heartbeat (sess w)) Heartbeat \<or> (\<exists>d. a = Serve d Closing)"
proof (cases "\<exists>d c. a = Serve d c")
  case False
  with assms(1) have "same_flags (sess w) (sess w')" by (blast dest: step_flags)
  with assms(2,3) show ?thesis by (simp add: same_flags_def)
next
  case True
  then obtain d c where a: "a = Serve d c" by blast
  with assms(1) obtain ctl s' where ss: "serve_select (sess w) c = Some (Inr (ctl, s'))"
    and w': "sess w' = s'" and t: "in_time (heartbeat (sess w)) d c"
    by (auto dest!: step_Serve)
  show ?thesis
  proof (cases c)
    case Heartbeat
    with a t show ?thesis by (simp add: in_time_def)
  next
    case (Request now order)
    with ss w' assms(2,3) show ?thesis
      by (auto dest!: serve_select_Request dispatch_flags)
  next
    case (Response werr)
    with ss w' assms(2,3) show ?thesis
      by (auto simp: same_flags_def dest!: serve_select_Response write_response_flags)
  next
    case (Broadcast now order)
    with ss w' assms(2,3) show ?thesis
      by (auto simp: same_flags_def dest!: serve_select_Broadcast event_flags)
  next
    case Closing
    with a show ?thesis by simp
  qed
qed

lemma step_Heartbeat:
  "step w (Serve d Heartbeat) =
     (if serving w \<and> d = heartbeat (sess w)
      then Some (Inr (w\<lparr>sess := (sess w)\<lparr>ready := False\<rparr>\<rparr>))
      else None)"
  by (cases w) (auto simp: step_def in_time_def serve_select_Heartbeat)

text \<open>
  C5 (as amended). The timer case of the control loop fires in a pass exactly when the
  loop is running and that pass has waited the whole heartbeat interval, whatever happened
  in earlier passes; it clears \<open>ready\<close> and changes nothing else: the session is not marked
  closed, no closing signal is sent, the transport and the registry are untouched, and the
  loop goes on. Readiness is revoked by nothing but the timer case and the teardown.
\<close>

theorem heartbeat_revokes_readiness:
  "step w (Serve d Heartbeat) =
     (if serving w \<and> d = heartbeat (sess w)
      then Some (Inr (w\<lparr>sess := (sess w)\<lparr>ready := False\<rparr>\<rparr>))
      else None)
   \<and> (step v a = Some (Inr v') \<and> ready (sess v) \<and> \<not> ready (sess v') \<longrightarrow>
        a = Serve (heartbeat (sess v)) Heartbeat \<or> (\<exists>d. a = Serve d Closing))"
  using step_Heartbeat [of w d] step_ready_falls [of v a v'] by blast

theorem heartbeat_revokes_readiness_witness:
  "ready (sess (after (boot Map.empty ''u1'' 10) handshake))
   \<and> serving (after (boot Map.empty ''u1'' 10) handshake)
   \<and> heartbeat (sess (after (boot Map.empty ''u1'' 10) handshake)) = 10
   \<and> step (after (boot Map.empty ''u1'' 10) handshake) (Serve 10 Heartbeat) =
       Some (Inr ((after (boot Map.empty ''u1'' 10) handshake)
         \<lparr>sess := (sess (after (boot Map.empty ''u1'' 10) handshake))\<lparr>ready := False\<rparr>\<rparr>))
   \<and> step (after (boot Map.empty ''u1'' 10) handshake) (Serve 7 Heartbeat) = None
   \<and> \<not> ready (sess (after (boot Map.empty ''u1'' 10) (handshake @ [Serve 10 Heartbeat])))
   \<and> serving (after (boot Map.empty ''u1'' 10) (handshake @ [Serve 10 Heartbeat]))
   \<and> \<not> closed (sess (after (boot Map.empty ''u1'' 10) (handshake @ [Serve 10 Heartbeat])))"
  using heartbeat_revokes_readiness [of "after (boot Map.empty ''u1'' 10) handshake" 10
      "after (boot Map.empty ''u1'' 10) handshake" "Serve 10 Heartbeat"
      "after (boot Map.empty ''u1'' 10) (handshake @ [Serve 10 Heartbeat])"]
    heartbeat_revokes_readiness [of "after (boot Map.empty ''u1'' 10) handshake" 7
      "after (boot Map.empty ''u1'' 10) handshake" "Serve 10 Heartbeat"
      "after (boot Map.empty ''u1'' 10) (handshake @ [Serve 10 Heartbeat])"]
  by (simp add: after_def handshake_def run_defs)

text \<open>
  C5 as it was stated does not hold. With a heartbeat of ten time units, a session that
  pinged once and then receives a SUBSCRIBE every six time units is still ready after
  twelve time units in which no PING was read: every request that arrives re-arms the
  timer.
\<close>

theorem heartbeat_counterexample:
  "ready_after (boot Map.empty ''u1'' 10) handshake
   \<and> queue (request (sess (after (boot Map.empty ''u1'' 10) handshake))) = []
   \<and> ready_after (boot Map.empty ''u1'' 10) (handshake @ busy_client)
   \<and> pings_read busy_client = 0
   \<and> heartbeat (sess (boot Map.empty ''u1'' 10)) < elapsed busy_client"
  by (simp add: ready_after_def after_def handshake_def busy_client_def run_defs)

section \<open>Closing twice\<close>

text \<open>
  C3. Closing a session twice. The once guard does its work: a second \<open>disconnect\<close>
  changes nothing (\<open>disconnect_twice\<close>). But \<open>close\<close> sends on the closing channel, and the
  teardown closes that channel. In the run below the client asks to disconnect: the control
  loop calls \<open>close\<close>, takes the signal and tears the session down, once (the guard is
  spent, the transport has been closed one time), while the listener waits in
  \<^verbatim>\<open>ReadJSON\<close>; the read then ends with the client's close frame and the listener calls
  \<open>close\<close> a second time, which panics.
\<close>

theorem close_twice_panics:
  "once (sess (after (boot Map.empty ''u1'' 10) (handshake @ butlast double_close)))
   \<and> close_calls (wire (sess (after (boot Map.empty ''u1'' 10) (handshake @ butlast double_close)))) = 1
   \<and> listener (after (boot Map.empty ''u1'' 10) (handshake @ butlast double_close)) = InRead
   \<and> run (boot Map.empty ''u1'' 10) (handshake @ double_close) = Some (Inl SendOnClosedChannel)"
  by (simp add: after_def handshake_def double_close_def run_defs)

end
